theory Spec2Isabelle
  imports Complex_Main
begin

section \<open>JavaScript numbers\<close>

text \<open>
  The geometry kernel of \<^verbatim>\<open>hyperbolic_functions.js\<close> computes on JavaScript numbers.
  A number is modelled as an exact real, or one of the three values that are not finite:
  \<open>PInf\<close> (\<^verbatim>\<open>Infinity\<close>), \<open>NInf\<close> (\<^verbatim>\<open>-Infinity\<close>) and \<open>NaN\<close>. No operation
  throws: a division by zero and a function applied outside its domain return one of
  these three values, by the rules of IEEE 754 written out below.

  Finite results of \<open>+\<close>, \<open>-\<close>, \<open>*\<close>, \<open>/\<close> and of the functions of \<^verbatim>\<open>Math\<close> are exact:
  rounding, overflow and underflow of double precision are not represented, with one
  exception, the saturation of \<^verbatim>\<open>Math.tanh\<close> at 1 and \<open>-1\<close>, which decides whether a
  projected node reaches the boundary of the disk. A statement below that is an equation
  between finite numbers is therefore a statement of exact arithmetic; the theorem on the
  distance of the end points of a geodesic from its centre keeps them away from the
  boundary of the disk, where the subtractions of the source cancel in double
  arithmetic. Neither is the sign of a zero represented: a zero is
  read as \<^verbatim>\<open>+0\<close>, so the sign of an infinity that comes out of a division by zero is not
  meaningful, and the statements below only use whether such a value is finite.
\<close>

datatype number = Fin real | PInf | NInf | NaN

fun is_finite :: "number \<Rightarrow> bool" where
  "is_finite (Fin _) = True"
| "is_finite _ = False"

fun sign_of :: "number \<Rightarrow> real" where
  "sign_of (Fin v) = sgn v"
| "sign_of PInf = 1"
| "sign_of NInf = - 1"
| "sign_of NaN = 0"

definition inf_of_sign :: "real \<Rightarrow> number" where
  "inf_of_sign s = (if s = 0 then NaN else if 0 < s then PInf else NInf)"

instantiation number :: "{plus, minus, uminus, times, inverse, abs, ord}"
begin

fun uminus_number :: "number \<Rightarrow> number" where
  "uminus_number (Fin v) = Fin (- v)"
| "uminus_number PInf = NInf"
| "uminus_number NInf = PInf"
| "uminus_number NaN = NaN"

fun plus_number :: "number \<Rightarrow> number \<Rightarrow> number" where
  "plus_number (Fin u) (Fin v) = Fin (u + v)"
| "plus_number NaN _ = NaN"
| "plus_number _ NaN = NaN"
| "plus_number PInf NInf = NaN"
| "plus_number NInf PInf = NaN"
| "plus_number PInf _ = PInf"
| "plus_number _ PInf = PInf"
| "plus_number NInf _ = NInf"
| "plus_number _ NInf = NInf"

definition minus_number :: "number \<Rightarrow> number \<Rightarrow> number" where
  "minus_number u v = (u::number) + (- v)"

fun times_number :: "number \<Rightarrow> number \<Rightarrow> number" where
  "times_number (Fin u) (Fin v) = Fin (u * v)"
| "times_number NaN _ = NaN"
| "times_number _ NaN = NaN"
| "times_number u v = inf_of_sign (sign_of u * sign_of v)"

fun divide_number :: "number \<Rightarrow> number \<Rightarrow> number" where
  "divide_number (Fin u) (Fin v) = (if v = 0 then inf_of_sign u else Fin (u / v))"
| "divide_number NaN _ = NaN"
| "divide_number _ NaN = NaN"
| "divide_number (Fin u) _ = Fin 0"
| "divide_number u (Fin v) = inf_of_sign (sign_of u * (if v < 0 then - 1 else 1))"
| "divide_number _ _ = NaN"

fun inverse_number :: "number \<Rightarrow> number" where
  "inverse_number (Fin v) = (if v = 0 then PInf else Fin (1 / v))"
| "inverse_number NaN = NaN"
| "inverse_number _ = Fin 0"

fun abs_number :: "number \<Rightarrow> number" where
  "abs_number (Fin v) = Fin \<bar>v\<bar>"
| "abs_number NaN = NaN"
| "abs_number _ = PInf"

fun less_number :: "number \<Rightarrow> number \<Rightarrow> bool" where
  "less_number (Fin u) (Fin v) = (u < v)"
| "less_number NaN _ = False"
| "less_number _ NaN = False"
| "less_number _ NInf = False"
| "less_number NInf _ = True"
| "less_number PInf _ = False"
| "less_number _ PInf = True"

fun less_eq_number :: "number \<Rightarrow> number \<Rightarrow> bool" where
  "less_eq_number (Fin u) (Fin v) = (u \<le> v)"
| "less_eq_number NaN _ = False"
| "less_eq_number _ NaN = False"
| "less_eq_number NInf _ = True"
| "less_eq_number _ PInf = True"
| "less_eq_number _ _ = False"

instance ..

end

subsection \<open>The functions of \<^verbatim>\<open>Math\<close> that the kernel calls\<close>

fun Math_sqrt :: "number \<Rightarrow> number" where
  "Math_sqrt (Fin v) = (if v < 0 then NaN else Fin (sqrt v))"
| "Math_sqrt PInf = PInf"
| "Math_sqrt _ = NaN"

text \<open>\<^verbatim>\<open>Math.pow\<close> is only called with the exponent 2; the model takes a natural exponent.\<close>

fun Math_pow :: "number \<Rightarrow> nat \<Rightarrow> number" where
  "Math_pow u 0 = Fin 1"
| "Math_pow (Fin v) n = Fin (v ^ n)"
| "Math_pow NaN n = NaN"
| "Math_pow PInf n = PInf"
| "Math_pow NInf n = (if even n then PInf else NInf)"

fun Math_hypot :: "number \<Rightarrow> number \<Rightarrow> number" where
  "Math_hypot (Fin u) (Fin v) = Fin (sqrt (u * u + v * v))"
| "Math_hypot PInf _ = PInf"
| "Math_hypot NInf _ = PInf"
| "Math_hypot _ PInf = PInf"
| "Math_hypot _ NInf = PInf"
| "Math_hypot _ _ = NaN"

fun Math_min :: "number \<Rightarrow> number \<Rightarrow> number" where
  "Math_min (Fin u) (Fin v) = Fin (min u v)"
| "Math_min NaN _ = NaN"
| "Math_min _ NaN = NaN"
| "Math_min NInf _ = NInf"
| "Math_min _ NInf = NInf"
| "Math_min PInf v = v"
| "Math_min u PInf = u"

definition atan2_real :: "real \<Rightarrow> real \<Rightarrow> real" where
  "atan2_real v u =
     (if 0 < u then arctan (v / u)
      else if u < 0 then (if 0 \<le> v then arctan (v / u) + pi else arctan (v / u) - pi)
      else if 0 < v then pi / 2
      else if v < 0 then - (pi / 2)
      else 0)"

fun Math_atan2 :: "number \<Rightarrow> number \<Rightarrow> number" where
  "Math_atan2 (Fin v) (Fin u) = Fin (atan2_real v u)"
| "Math_atan2 NaN _ = NaN"
| "Math_atan2 _ NaN = NaN"
| "Math_atan2 (Fin v) PInf = Fin 0"
| "Math_atan2 (Fin v) NInf = Fin (if v < 0 then - pi else pi)"
| "Math_atan2 PInf (Fin u) = Fin (pi / 2)"
| "Math_atan2 NInf (Fin u) = Fin (- (pi / 2))"
| "Math_atan2 PInf PInf = Fin (pi / 4)"
| "Math_atan2 PInf NInf = Fin (3 * pi / 4)"
| "Math_atan2 NInf PInf = Fin (- (pi / 4))"
| "Math_atan2 NInf NInf = Fin (- (3 * pi / 4))"

fun Math_sin :: "number \<Rightarrow> number" where
  "Math_sin (Fin v) = Fin (sin v)"
| "Math_sin _ = NaN"

fun Math_cos :: "number \<Rightarrow> number" where
  "Math_cos (Fin v) = Fin (cos v)"
| "Math_cos _ = NaN"

text \<open>
  The real \<open>tanh\<close> is below 1 at every argument; \<^verbatim>\<open>Math.tanh\<close> is not. The doubles next
  to 1 are \<open>1 - 2\<^sup>-\<^sup>5\<^sup>3\<close> and 1, so from the argument on where \<open>tanh\<close> is at least
  \<open>1 - 2\<^sup>-\<^sup>5\<^sup>4\<close> (about 19.06) the nearest double is 1 itself, and \<^verbatim>\<open>Math.tanh\<close> returns
  exactly 1; likewise \<open>-1\<close> on the negative side.
\<close>

fun Math_tanh :: "number \<Rightarrow> number" where
  "Math_tanh (Fin v) =
     (if 1 - 1 / 2 ^ 54 \<le> tanh v then Fin 1
      else if tanh v \<le> - (1 - 1 / 2 ^ 54) then Fin (- 1)
      else Fin (tanh v))"
| "Math_tanh PInf = Fin 1"
| "Math_tanh NInf = Fin (- 1)"
| "Math_tanh NaN = NaN"

fun Math_atanh :: "number \<Rightarrow> number" where
  "Math_atanh (Fin v) =
     (if v < - 1 \<or> 1 < v then NaN
      else if v = 1 then PInf
      else if v = - 1 then NInf
      else Fin (artanh v))"
| "Math_atanh _ = NaN"

fun Math_acosh :: "number \<Rightarrow> number" where
  "Math_acosh (Fin v) = (if v < 1 then NaN else Fin (arcosh v))"
| "Math_acosh PInf = PInf"
| "Math_acosh _ = NaN"

section \<open>Data\<close>

text \<open>
  The objects of the kernel are records of numbers. A function that reads only some
  fields of its argument (\<^verbatim>\<open>circle_inversion\<close> reads \<^verbatim>\<open>cx\<close>, \<^verbatim>\<open>cy\<close> and \<^verbatim>\<open>r\<close> of
  the disk object) takes the extensible record type. A field that a JavaScript object
  may lack is an \<open>option\<close>. Where a parameter or a local variable of the source has
  the name of a field, the model writes it with a prime.
\<close>

record point =
  x :: number
  y :: number

record arc =
  p1 :: point
  p2 :: point
  c :: point
  startAngle :: number
  endAngle :: number
  r :: number

record line =
  a :: number
  b :: number
  c :: number

record circle =
  cx :: number
  cy :: number
  r :: number

record rect =
  left :: number
  right :: number
  top :: number
  bottom :: number

record poindisk = circle +
  boundbox :: rect
  center :: point

record pcircle = circle +
  px :: number
  py :: number
  center :: point
  hcenter :: point

record projection =
  center :: point
  circle :: pcircle

record node = point +
  center :: "point option"
  circle :: "pcircle option"

section \<open>The kernel\<close>

definition canvas_to_disk :: "'a point_scheme \<Rightarrow> poindisk \<Rightarrow> point" where
  "canvas_to_disk p poindisk =
     (let rect = boundbox poindisk;
          x' = ((x p - left rect) / (right rect - left rect) - Fin 0.5) * Fin 2;
          y' = ((y p - top rect) / (bottom rect - top rect) - Fin 0.5) * Fin (- 2)
      in \<lparr>x = x', y = y'\<rparr>)"

definition disk_to_canvas :: "'a point_scheme \<Rightarrow> poindisk \<Rightarrow> point" where
  "disk_to_canvas p poindisk =
     (let x' = x p * r poindisk + cx poindisk;
          y' = (- y p) * r poindisk + cy poindisk
      in \<lparr>x = x', y = y'\<rparr>)"

definition euclid_dist :: "'a point_scheme \<Rightarrow> 'b point_scheme \<Rightarrow> number" where
  "euclid_dist p q = Math_sqrt (Math_pow (x p - x q) 2 + Math_pow (y p - y q) 2)"

definition r_poincare_to_euclid :: "number \<Rightarrow> number" where
  "r_poincare_to_euclid r' = Math_tanh (r' / Fin 2)"

definition hyper_radius_from_euclidean :: "number \<Rightarrow> number" where
  "hyper_radius_from_euclidean r' = Fin 2 * Math_atanh r'"

definition euclid_line :: "'a point_scheme \<Rightarrow> 'b point_scheme \<Rightarrow> line" where
  "euclid_line p q =
     (let line = \<lparr>a = y p - y q, b = x q - x p, c = x p * y q - x q * y p\<rparr>
      in if \<bar>b line\<bar> > Fin 0.001
         then \<lparr>a = a line / b line, b = b line / b line, c = c line / b line\<rparr>
         else line)"

definition get_perpendicular_line :: "line \<Rightarrow> 'a point_scheme \<Rightarrow> line" where
  "get_perpendicular_line pq v = \<lparr>a = b pq, b = - a pq, c = (- x v) * b pq + y v * a pq\<rparr>"

definition find_midpoint :: "'a point_scheme \<Rightarrow> 'b point_scheme \<Rightarrow> point" where
  "find_midpoint p q = \<lparr>x = (x p + x q) / Fin 2, y = (y p + y q) / Fin 2\<rparr>"

definition find_intersection :: "line \<Rightarrow> line \<Rightarrow> point" where
  "find_intersection pq xy =
     \<lparr>x = (c pq * b xy - b pq * c xy) / (b pq * a xy - a pq * b xy),
      y = (a pq * c xy - c pq * a xy) / (b pq * a xy - a pq * b xy)\<rparr>"

definition circle_inversion :: "'a point_scheme \<Rightarrow> 'b circle_scheme \<Rightarrow> point" where
  "circle_inversion p circle' =
     (let cx' = cx circle';
          cy' = cy circle';
          dist' = euclid_dist p \<lparr>x = cx', y = cy'\<rparr>;
          new_c = r circle' * r circle' / (dist' * dist');
          u = \<lparr>x = x p - cx', y = y p - cy'\<rparr>
      in \<lparr>x = new_c * x u + cx', y = new_c * y u + cy'\<rparr>)"

definition poincare_geodesic :: "'a point_scheme \<Rightarrow> 'b point_scheme \<Rightarrow> poindisk \<Rightarrow> arc" where
  "poincare_geodesic p q poindisk =
     (let left' = left (boundbox poindisk);
          top' = top (boundbox poindisk);
          p' = \<lparr>x = x p - left', y = y p - top'\<rparr>;
          q' = \<lparr>x = x q - left', y = y q - top'\<rparr>;
          pp = circle_inversion p' poindisk;
          qq = circle_inversion q' poindisk;
          M = find_midpoint p' pp;
          N = find_midpoint q' qq;
          m = get_perpendicular_line (euclid_line p' pp) M;
          n = get_perpendicular_line (euclid_line q' qq) N;
          C = find_intersection m n
      in \<lparr>p1 = p', p2 = q', arc.c = C,
          startAngle = Math_atan2 (y q' - y C) (x q' - x C),
          endAngle = Math_atan2 (y p' - y C) (x p' - x C),
          arc.r = euclid_dist p' C\<rparr>)"

definition poincare_circle :: "'a point_scheme \<Rightarrow> number \<Rightarrow> poindisk \<Rightarrow> pcircle" where
  "poincare_circle center' r' poindisk =
     (let e_center_radius = Math_sqrt (x center' * x center' + y center' * y center');
          cr = hyper_radius_from_euclidean e_center_radius;
          dh1 = cr - r';
          dh2 = cr + r';
          de1 = r_poincare_to_euclid dh1;
          de2 = r_poincare_to_euclid dh2;
          er = (de2 - de1) / Fin 2;
          ecr = (de2 + de1) / Fin 2;
          c_theta = Math_atan2 (y center') (x center');
          x' = ecr * Math_cos c_theta;
          y' = ecr * Math_sin c_theta;
          canvas_coord = disk_to_canvas \<lparr>x = x', y = y'\<rparr> poindisk
      in \<lparr>cx = x canvas_coord, cy = y canvas_coord, r = er * r poindisk,
          px = x', py = y', pcircle.center = \<lparr>x = x', y = y'\<rparr>,
          hcenter = disk_to_canvas center' poindisk\<rparr>)"

text \<open>
  \<^verbatim>\<open>to_poincare\<close> writes the fields \<^verbatim>\<open>center\<close> and \<^verbatim>\<open>circle\<close> of the node it is
  given when \<^verbatim>\<open>inPlace\<close> holds: the model returns the node after the call together
  with the returned object. Its local variables \<^verbatim>\<open>theta\<close> and \<^verbatim>\<open>poincareR\<close> are
  also given as functions of the arguments, to speak about them.
\<close>

definition to_poincare ::
  "'a node_scheme \<Rightarrow> number \<Rightarrow> number \<Rightarrow> poindisk \<Rightarrow> bool \<Rightarrow> 'a node_scheme \<times> projection" where
  "to_poincare ePosition centerX centerY poindisk inPlace =
     (let x' = Fin 0.005 * (x ePosition - centerX);
          y' = Fin 0.005 * (y ePosition - centerY);
          circleR = Math_hypot x' y';
          theta = Math_atan2 x' y';
          hR = Math_acosh ((Fin 0.5 * circleR * circleR) + Fin 1);
          poincareR = Math_tanh (hR / Fin 2);
          poinx = r poindisk + r poindisk * (poincareR * Math_sin theta);
          poiny = r poindisk + r poindisk * (poincareR * Math_cos theta);
          ePosition1 =
            (if inPlace
             then (let ePosition2 = ePosition\<lparr>node.center := Some \<lparr>x = poinx, y = poiny\<rparr>\<rparr>
                   in ePosition2\<lparr>node.circle :=
                        Some (poincare_circle
                                (canvas_to_disk (the (node.center ePosition2)) poindisk)
                                (Fin 0.2) poindisk)\<rparr>)
             else ePosition)
      in (ePosition1,
          \<lparr>projection.center = \<lparr>x = poinx, y = poiny\<rparr>,
           projection.circle =
             poincare_circle (canvas_to_disk \<lparr>x = poinx, y = poiny\<rparr> poindisk)
               (Fin 0.05) poindisk\<rparr>))"

definition to_poincare_theta :: "'a node_scheme \<Rightarrow> number \<Rightarrow> number \<Rightarrow> number" where
  "to_poincare_theta ePosition centerX centerY =
     (let x' = Fin 0.005 * (x ePosition - centerX);
          y' = Fin 0.005 * (y ePosition - centerY)
      in Math_atan2 x' y')"

definition to_poincare_poincareR :: "'a node_scheme \<Rightarrow> number \<Rightarrow> number \<Rightarrow> number" where
  "to_poincare_poincareR ePosition centerX centerY =
     (let x' = Fin 0.005 * (x ePosition - centerX);
          y' = Fin 0.005 * (y ePosition - centerY);
          circleR = Math_hypot x' y';
          hR = Math_acosh ((Fin 0.5 * circleR * circleR) + Fin 1)
      in Math_tanh (hR / Fin 2))"

text \<open>
  The disk object that \<^verbatim>\<open>d3Hyperbolic.render\<close> builds for a canvas of the given width
  and height.
\<close>

definition render_poindisk :: "number \<Rightarrow> number \<Rightarrow> poindisk" where
  "render_poindisk canvasWidth canvasHeight =
     (let boundbox' = \<lparr>left = Fin 0, right = canvasWidth, top = Fin 0, bottom = canvasHeight\<rparr>;
          cx' = (right boundbox' - left boundbox') / Fin 2;
          cy' = (bottom boundbox' - top boundbox') / Fin 2;
          r' = Math_min cx' cy'
      in \<lparr>cx = cx', cy = cy', r = r', boundbox = boundbox',
          poindisk.center = \<lparr>x = cx', y = cy'\<rparr>\<rparr>)"


section \<open>Arithmetic on finite numbers\<close>

lemma minus_Fin [simp]: "Fin u - Fin v = Fin (u - v)"
  by (simp add: minus_number_def)

lemma minus_NaN_left [simp]: "NaN - u = NaN"
  by (simp add: minus_number_def)

lemma minus_NaN_right [simp]: "u - NaN = NaN"
  by (cases u) (simp_all add: minus_number_def)

lemma times_NaN_right [simp]: "u * NaN = NaN"
  by (cases u) simp_all

lemma plus_NaN_right [simp]: "u + NaN = NaN"
  by (cases u) simp_all

lemma divide_NaN_right [simp]: "u / NaN = NaN"
  by (cases u) simp_all

lemma Math_atan2_NaN_right [simp]: "Math_atan2 u NaN = NaN"
  by (cases u) simp_all

lemma divide_Fin_nonzero: "v \<noteq> 0 \<Longrightarrow> Fin u / Fin v = Fin (u / v)"
  by simp

lemma is_finite_iff: "is_finite u \<longleftrightarrow> (\<exists>v. u = Fin v)"
  by (cases u) simp_all

lemma Math_pow_Fin [simp]: "Math_pow (Fin v) n = Fin (v ^ n)"
  by (cases n) simp_all

lemma Math_pow_NaN_2 [simp]: "Math_pow NaN 2 = NaN"
  by (simp add: numeral_2_eq_2)

lemma euclid_dist_Fin:
  "euclid_dist \<lparr>x = Fin a1, y = Fin a2\<rparr> \<lparr>x = Fin b1, y = Fin b2\<rparr> =
     Fin (sqrt ((a1 - b1)\<^sup>2 + (a2 - b2)\<^sup>2))"
  by (simp add: euclid_dist_def not_less)

lemma render_poindisk_square:
  "cx (render_poindisk (Fin 200) (Fin 200)) = Fin 100"
  "cy (render_poindisk (Fin 200) (Fin 200)) = Fin 100"
  "r (render_poindisk (Fin 200) (Fin 200)) = Fin 100"
  "boundbox (render_poindisk (Fin 200) (Fin 200)) =
     \<lparr>left = Fin 0, right = Fin 200, top = Fin 0, bottom = Fin 200\<rparr>"
  by (simp_all add: render_poindisk_def Let_def)

lemma tanh_le_double:
  fixes v :: real
  assumes "0 \<le> v"
  shows "tanh v \<le> 2 * v"
proof -
  define e where "e = exp (- 2 * v)"
  have e0: "0 < e" by (simp add: e_def)
  have e1: "e \<le> 1" using assms by (simp add: e_def)
  have e2: "1 - 2 * v \<le> e" using exp_ge_add_one_self[of "- 2 * v"] by (simp add: e_def)
  have "tanh v = (1 - e) / (1 + e)" by (simp add: tanh_real_altdef e_def)
  also have "\<dots> \<le> (1 - e) / 1"
    using e0 e1 by (intro divide_left_mono) simp_all
  also have "\<dots> \<le> 2 * v" using e2 by simp
  finally show ?thesis .
qed




lemma Math_tanh_small: "\<bar>v\<bar> \<le> 1 / 4 \<Longrightarrow> Math_tanh (Fin v) = Fin (tanh v)"
proof -
  assume v: "\<bar>v\<bar> \<le> 1 / 4"
  have "tanh \<bar>v\<bar> \<le> 2 * \<bar>v\<bar>" by (rule tanh_le_double) simp
  then have "\<bar>tanh v\<bar> \<le> 1 / 2" using v by simp
  then have "tanh v \<le> 1 / 2" "- (1 / 2) \<le> tanh v" by linarith+
  then show ?thesis by simp
qed


section \<open>Intersection of two lines\<close>

text \<open>
  A line \<open>\<lparr>a, b, c\<rparr>\<close> is the set of points with \<open>a x + b y + c = 0\<close>: this is the
  equation that \<^verbatim>\<open>euclid_line\<close> and \<^verbatim>\<open>get_perpendicular_line\<close> build and that
  \<^verbatim>\<open>find_intersection\<close> solves. With a determinant that is not zero the result is the
  common point of the two lines.
\<close>

lemma find_intersection_solves:
  assumes "b1 * a2 - a1 * b2 \<noteq> 0"
  shows "\<exists>X Y. find_intersection \<lparr>a = Fin a1, b = Fin b1, c = Fin c1\<rparr>
                 \<lparr>a = Fin a2, b = Fin b2, c = Fin c2\<rparr> = \<lparr>x = Fin X, y = Fin Y\<rparr>
           \<and> a1 * X + b1 * Y + c1 = 0 \<and> a2 * X + b2 * Y + c2 = 0"
proof -
  define D where "D = b1 * a2 - a1 * b2"
  have D: "D \<noteq> 0" using assms by (simp add: D_def)
  define X where "X = (c1 * b2 - b1 * c2) / D"
  define Y where "Y = (a1 * c2 - c1 * a2) / D"
  have fi: "find_intersection \<lparr>a = Fin a1, b = Fin b1, c = Fin c1\<rparr>
              \<lparr>a = Fin a2, b = Fin b2, c = Fin c2\<rparr> = \<lparr>x = Fin X, y = Fin Y\<rparr>"
    using assms by (simp add: find_intersection_def X_def Y_def D_def)
  have DX: "D * X = c1 * b2 - b1 * c2" using D by (simp add: X_def)
  have DY: "D * Y = a1 * c2 - c1 * a2" using D by (simp add: Y_def)
  have "D * (a1 * X + b1 * Y + c1) = a1 * (D * X) + b1 * (D * Y) + c1 * D"
    by (simp add: algebra_simps)
  also have "\<dots> = 0" by (simp only: DX DY) (simp add: D_def algebra_simps)
  finally have e1: "a1 * X + b1 * Y + c1 = 0" using D by simp
  have "D * (a2 * X + b2 * Y + c2) = a2 * (D * X) + b2 * (D * Y) + c2 * D"
    by (simp add: algebra_simps)
  also have "\<dots> = 0" by (simp only: DX DY) (simp add: D_def algebra_simps)
  finally have e2: "a2 * X + b2 * Y + c2 = 0" using D by simp
  show ?thesis using fi e1 e2 by blast
qed

text \<open>
  With a determinant that is zero both quotients divide by zero: no error is raised, and
  neither coordinate of the returned point is finite.
\<close>

lemma find_intersection_parallel:
  assumes "b1 * a2 - a1 * b2 = 0"
  shows "\<not> is_finite (x (find_intersection \<lparr>a = Fin a1, b = Fin b1, c = Fin c1\<rparr>
                             \<lparr>a = Fin a2, b = Fin b2, c = Fin c2\<rparr>))
       \<and> \<not> is_finite (y (find_intersection \<lparr>a = Fin a1, b = Fin b1, c = Fin c1\<rparr>
                               \<lparr>a = Fin a2, b = Fin b2, c = Fin c2\<rparr>))"
  using assms by (simp add: find_intersection_def inf_of_sign_def)

text \<open>
  C3. The claim asks that \<^verbatim>\<open>find_intersection\<close> fails with an error on two parallel
  lines. The code has no such branch (its comment says \<^verbatim>\<open>TODO: Handle parallel lines\<close>):
  on the parallel lines \<open>x - 225 = 0\<close> and \<open>x + 25 = 0\<close> it returns a point, whose
  first coordinate is \<open>0 / 0 = NaN\<close> and whose second coordinate is \<open>250 / 0\<close>, an
  infinity.
\<close>

theorem find_intersection_parallel_returns_point:
  "x (find_intersection \<lparr>a = Fin 1, b = Fin 0, c = Fin (- 225)\<rparr>
        \<lparr>a = Fin 1, b = Fin 0, c = Fin 25\<rparr>) = NaN
   \<and> \<not> is_finite (y (find_intersection \<lparr>a = Fin 1, b = Fin 0, c = Fin (- 225)\<rparr>
                           \<lparr>a = Fin 1, b = Fin 0, c = Fin 25\<rparr>))"
  by (simp add: find_intersection_def inf_of_sign_def)

section \<open>Geodesic of two points on a diameter\<close>

text \<open>
  C1. On the canvas of width and height 200 the disk has centre \<open>(100, 100)\<close> and
  radius 100, and the canvas points \<open>(150, 100)\<close> and \<open>(50, 100)\<close> are the disk points
  \<open>(0.5, 0)\<close> and \<open>(-0.5, 0)\<close>, on a line through the centre. The claim asks for a
  straight segment and no \<open>NaN\<close>. \<^verbatim>\<open>poincare_geodesic\<close> has no branch for this case:
  the two bisectors \<open>x - 225 = 0\<close> and \<open>x + 25 = 0\<close> are parallel, their intersection
  divides by zero, and the centre, the radius and both angles of the returned arc are
  not finite.
\<close>

theorem poincare_geodesic_diameter_is_NaN:
  "canvas_to_disk \<lparr>x = Fin 150, y = Fin 100\<rparr> (render_poindisk (Fin 200) (Fin 200))
     = \<lparr>x = Fin 0.5, y = Fin 0\<rparr>
   \<and> canvas_to_disk \<lparr>x = Fin 50, y = Fin 100\<rparr> (render_poindisk (Fin 200) (Fin 200))
     = \<lparr>x = Fin (- 0.5), y = Fin 0\<rparr>
   \<and> x (arc.c (poincare_geodesic \<lparr>x = Fin 150, y = Fin 100\<rparr> \<lparr>x = Fin 50, y = Fin 100\<rparr>
                  (render_poindisk (Fin 200) (Fin 200)))) = NaN
   \<and> \<not> is_finite (y (arc.c (poincare_geodesic \<lparr>x = Fin 150, y = Fin 100\<rparr>
                  \<lparr>x = Fin 50, y = Fin 100\<rparr> (render_poindisk (Fin 200) (Fin 200)))))
   \<and> arc.r (poincare_geodesic \<lparr>x = Fin 150, y = Fin 100\<rparr> \<lparr>x = Fin 50, y = Fin 100\<rparr>
                  (render_poindisk (Fin 200) (Fin 200))) = NaN
   \<and> startAngle (poincare_geodesic \<lparr>x = Fin 150, y = Fin 100\<rparr> \<lparr>x = Fin 50, y = Fin 100\<rparr>
                  (render_poindisk (Fin 200) (Fin 200))) = NaN
   \<and> endAngle (poincare_geodesic \<lparr>x = Fin 150, y = Fin 100\<rparr> \<lparr>x = Fin 50, y = Fin 100\<rparr>
                  (render_poindisk (Fin 200) (Fin 200))) = NaN"
proof -
  let ?d = "render_poindisk (Fin 200) (Fin 200)"
  note d = render_poindisk_square
  have pp: "circle_inversion \<lparr>x = Fin 150, y = Fin 100\<rparr> ?d = \<lparr>x = Fin 300, y = Fin 100\<rparr>"
    by (simp add: circle_inversion_def d euclid_dist_Fin Let_def)
  have qq: "circle_inversion \<lparr>x = Fin 50, y = Fin 100\<rparr> ?d = \<lparr>x = Fin (- 100), y = Fin 100\<rparr>"
    by (simp add: circle_inversion_def d euclid_dist_Fin Let_def)
  have m: "get_perpendicular_line
             (euclid_line \<lparr>x = Fin 150, y = Fin 100\<rparr> \<lparr>x = Fin 300, y = Fin 100\<rparr>)
             (find_midpoint \<lparr>x = Fin 150, y = Fin 100\<rparr> \<lparr>x = Fin 300, y = Fin 100\<rparr>)
           = \<lparr>a = Fin 1, b = Fin 0, c = Fin (- 225)\<rparr>"
    by (simp add: get_perpendicular_line_def euclid_line_def find_midpoint_def Let_def)
  have n: "get_perpendicular_line
             (euclid_line \<lparr>x = Fin 50, y = Fin 100\<rparr> \<lparr>x = Fin (- 100), y = Fin 100\<rparr>)
             (find_midpoint \<lparr>x = Fin 50, y = Fin 100\<rparr> \<lparr>x = Fin (- 100), y = Fin 100\<rparr>)
           = \<lparr>a = Fin 1, b = Fin 0, c = Fin 25\<rparr>"
    by (simp add: get_perpendicular_line_def euclid_line_def find_midpoint_def Let_def)
  have C: "find_intersection \<lparr>a = Fin 1, b = Fin 0, c = Fin (- 225)\<rparr>
             \<lparr>a = Fin 1, b = Fin 0, c = Fin 25\<rparr> = \<lparr>x = NaN, y = PInf\<rparr>"
    by (simp add: find_intersection_def inf_of_sign_def)
  have g: "poincare_geodesic \<lparr>x = Fin 150, y = Fin 100\<rparr> \<lparr>x = Fin 50, y = Fin 100\<rparr> ?d
           = \<lparr>p1 = \<lparr>x = Fin 150, y = Fin 100\<rparr>, p2 = \<lparr>x = Fin 50, y = Fin 100\<rparr>,
              arc.c = \<lparr>x = NaN, y = PInf\<rparr>, startAngle = NaN, endAngle = NaN, arc.r = NaN\<rparr>"
    by (simp add: poincare_geodesic_def Let_def d pp qq m n C euclid_dist_def minus_number_def)
  have cp: "canvas_to_disk \<lparr>x = Fin 150, y = Fin 100\<rparr> ?d = \<lparr>x = Fin 0.5, y = Fin 0\<rparr>"
    by (simp add: canvas_to_disk_def d Let_def)
  have cq: "canvas_to_disk \<lparr>x = Fin 50, y = Fin 100\<rparr> ?d = \<lparr>x = Fin (- 0.5), y = Fin 0\<rparr>"
    by (simp add: canvas_to_disk_def d Let_def)
  show ?thesis unfolding g cp cq by simp
qed

section \<open>Circle inversion\<close>

text \<open>
  Off the centre of the circle every step of \<^verbatim>\<open>circle_inversion\<close> is finite. At the
  centre the distance is zero, the factor \<^verbatim>\<open>new_c\<close> is a division by zero, and its
  product with the zero vector is \<open>NaN\<close>. A \<open>NaN\<close> inverse point makes every later
  step of \<^verbatim>\<open>poincare_geodesic\<close> \<open>NaN\<close>.
\<close>

lemma circle_inversion_Fin:
  assumes "x p = Fin u" "y p = Fin v" "cx ci = Fin s" "cy ci = Fin t" "r ci = Fin w"
    and "(u - s)\<^sup>2 + (v - t)\<^sup>2 \<noteq> 0"
  shows "circle_inversion p ci =
           \<lparr>x = Fin (w * w / ((u - s)\<^sup>2 + (v - t)\<^sup>2) * (u - s) + s),
            y = Fin (w * w / ((u - s)\<^sup>2 + (v - t)\<^sup>2) * (v - t) + t)\<rparr>"
  using assms by (auto simp add: circle_inversion_def euclid_dist_def Let_def not_less)

lemma circle_inversion_center:
  assumes "x p = Fin s" "y p = Fin t" "cx ci = Fin s" "cy ci = Fin t" "r ci = Fin w"
  shows "circle_inversion p ci = \<lparr>x = NaN, y = NaN\<rparr>"
  using assms by (simp add: circle_inversion_def euclid_dist_def Let_def inf_of_sign_def)

lemma poincare_geodesic_NaN:
  assumes pp: "circle_inversion \<lparr>x = x p - left (boundbox d), y = y p - top (boundbox d)\<rparr> d = \<lparr>x = NaN, y = NaN\<rparr>"
  shows "arc.c (poincare_geodesic p q d) = \<lparr>x = NaN, y = NaN\<rparr> \<and> arc.r (poincare_geodesic p q d) = NaN"
  by (simp add: poincare_geodesic_def Let_def pp find_midpoint_def euclid_line_def get_perpendicular_line_def find_intersection_def euclid_dist_def)

text \<open>
  C10. For finite arguments, \<^verbatim>\<open>circle_inversion\<close> is defined exactly off the centre
  of the circle. When \<open>p\<close> is not the centre, the result is finite, lies on the ray from
  the centre through \<open>p\<close> (it is the centre plus a non-negative multiple of \<open>p - centre\<close>)
  and its distance to the centre is \<open>r\<^sup>2 / dist\<close>. When \<open>p\<close> is the centre, both
  coordinates of the result are \<open>NaN\<close>. \<^verbatim>\<open>poincare_geodesic\<close> calls it without a
  guard: when its first point, moved into the frame of the bounding box, is the centre
  of the disk, the centre and the radius of the returned arc are \<open>NaN\<close>.
\<close>

theorem circle_inversion_defined_off_center:
  fixes u v s t w :: real
  assumes "x p = Fin u" "y p = Fin v" "cx ci = Fin s" "cy ci = Fin t" "r ci = Fin w"
  shows "((u, v) \<noteq> (s, t) \<longrightarrow>
            (\<exists>k. 0 \<le> k \<and> circle_inversion p ci =
                   \<lparr>x = Fin (k * (u - s) + s), y = Fin (k * (v - t) + t)\<rparr>)
            \<and> is_finite (euclid_dist (circle_inversion p ci) \<lparr>x = Fin s, y = Fin t\<rparr>)
            \<and> euclid_dist (circle_inversion p ci) \<lparr>x = Fin s, y = Fin t\<rparr>
                = r ci * r ci / euclid_dist p \<lparr>x = Fin s, y = Fin t\<rparr>)
       \<and> ((u, v) = (s, t) \<longrightarrow> circle_inversion p ci = \<lparr>x = NaN, y = NaN\<rparr>)
       \<and> (cx d = Fin s \<and> cy d = Fin t \<and> r d = Fin w
              \<and> x p - left (boundbox d) = Fin s \<and> y p - top (boundbox d) = Fin t
            \<longrightarrow> arc.c (poincare_geodesic p q d) = \<lparr>x = NaN, y = NaN\<rparr>
                \<and> arc.r (poincare_geodesic p q d) = NaN)"
proof (intro conjI impI)
  assume ne: "(u, v) \<noteq> (s, t)"
  define S where "S = (u - s)\<^sup>2 + (v - t)\<^sup>2"
  have S: "0 < S" using ne unfolding S_def
    by (metis add.commute eq_iff_diff_eq_0 prod.inject sum_power2_gt_zero_iff)
  define k where "k = w * w / S"
  have k: "0 \<le> k" using S by (simp add: k_def)
  have ci: "circle_inversion p ci = \<lparr>x = Fin (k * (u - s) + s), y = Fin (k * (v - t) + t)\<rparr>"
    unfolding k_def S_def using S by (intro circle_inversion_Fin assms) (auto simp add: S_def)
  show "\<exists>k. 0 \<le> k \<and> circle_inversion p ci =
                   \<lparr>x = Fin (k * (u - s) + s), y = Fin (k * (v - t) + t)\<rparr>"
    using k ci by blast
  have "(k * (u - s))\<^sup>2 + (k * (v - t))\<^sup>2 = k\<^sup>2 * S"
    by (simp add: S_def power_mult_distrib distrib_left)
  then have d1: "euclid_dist (circle_inversion p ci) \<lparr>x = Fin s, y = Fin t\<rparr> = Fin (k * sqrt S)"
    using k by (simp add: ci euclid_dist_Fin real_sqrt_mult)
  then show "is_finite (euclid_dist (circle_inversion p ci) \<lparr>x = Fin s, y = Fin t\<rparr>)" by simp
  have d2: "euclid_dist p \<lparr>x = Fin s, y = Fin t\<rparr> = Fin (sqrt S)"
    by (simp add: euclid_dist_def assms S_def not_less)
  have "k * sqrt S = w * w / sqrt S"
    using S by (simp add: k_def field_simps)
  then show "euclid_dist (circle_inversion p ci) \<lparr>x = Fin s, y = Fin t\<rparr>
                = r ci * r ci / euclid_dist p \<lparr>x = Fin s, y = Fin t\<rparr>"
    using S by (simp add: d1 d2 assms)
next
  assume "(u, v) = (s, t)"
  then show "circle_inversion p ci = \<lparr>x = NaN, y = NaN\<rparr>"
    using assms by (intro circle_inversion_center[where w = w]) simp_all
next
  assume h: "cx d = Fin s \<and> cy d = Fin t \<and> r d = Fin w
                 \<and> x p - left (boundbox d) = Fin s \<and> y p - top (boundbox d) = Fin t"
  have "circle_inversion \<lparr>x = x p - left (boundbox d), y = y p - top (boundbox d)\<rparr> d = \<lparr>x = NaN, y = NaN\<rparr>"
    using h by (intro circle_inversion_center[where w = w and s = s and t = t]) simp_all
  from poincare_geodesic_NaN[OF this, of q]
  show "arc.c (poincare_geodesic p q d) = \<lparr>x = NaN, y = NaN\<rparr>"
    and "arc.r (poincare_geodesic p q d) = NaN" by blast+
qed

theorem circle_inversion_defined_off_center_witness:
  "x \<lparr>x = Fin 150, y = Fin 100\<rparr> = Fin 150 \<and> y \<lparr>x = Fin 150, y = Fin 100\<rparr> = Fin 100
   \<and> cx \<lparr>cx = Fin 100, cy = Fin 100, r = Fin 100\<rparr> = Fin 100
   \<and> (150 :: real, 100 :: real) \<noteq> (100, 100)
   \<and> is_finite (euclid_dist (circle_inversion \<lparr>x = Fin 150, y = Fin 100\<rparr>
                                  \<lparr>cx = Fin 100, cy = Fin 100, r = Fin 100\<rparr>)
                                \<lparr>x = Fin 100, y = Fin 100\<rparr>)
   \<and> euclid_dist (circle_inversion \<lparr>x = Fin 150, y = Fin 100\<rparr>
                                  \<lparr>cx = Fin 100, cy = Fin 100, r = Fin 100\<rparr>)
                                \<lparr>x = Fin 100, y = Fin 100\<rparr>
       = Fin 100 * Fin 100 / euclid_dist \<lparr>x = Fin 150, y = Fin 100\<rparr> \<lparr>x = Fin 100, y = Fin 100\<rparr>
   \<and> circle_inversion \<lparr>x = Fin 100, y = Fin 100\<rparr> \<lparr>cx = Fin 100, cy = Fin 100, r = Fin 100\<rparr>
       = \<lparr>x = NaN, y = NaN\<rparr>
   \<and> arc.r (poincare_geodesic \<lparr>x = Fin 100, y = Fin 100\<rparr> \<lparr>x = Fin 50, y = Fin 100\<rparr>
               (render_poindisk (Fin 200) (Fin 200))) = NaN"
proof -
  let ?ci = "\<lparr>cx = Fin 100, cy = Fin 100, r = Fin 100\<rparr>"
  have off: "(150 :: real, 100 :: real) \<noteq> (100, 100)" by simp
  note t1 = circle_inversion_defined_off_center
              [of "\<lparr>x = Fin 150, y = Fin 100\<rparr>" 150 100 ?ci 100 100 100]
  note t2 = circle_inversion_defined_off_center
              [of "\<lparr>x = Fin 100, y = Fin 100\<rparr>" 100 100 ?ci 100 100 100
                  "render_poindisk (Fin 200) (Fin 200)" "\<lparr>x = Fin 50, y = Fin 100\<rparr>"]
  have fin: "is_finite (euclid_dist (circle_inversion \<lparr>x = Fin 150, y = Fin 100\<rparr> ?ci)
                                \<lparr>x = Fin 100, y = Fin 100\<rparr>)"
    using t1 off by fastforce
  have dist: "euclid_dist (circle_inversion \<lparr>x = Fin 150, y = Fin 100\<rparr> ?ci)
                                \<lparr>x = Fin 100, y = Fin 100\<rparr>
            = r ?ci * r ?ci / euclid_dist \<lparr>x = Fin 150, y = Fin 100\<rparr> \<lparr>x = Fin 100, y = Fin 100\<rparr>"
    using t1 off by fastforce
  have cen: "circle_inversion \<lparr>x = Fin 100, y = Fin 100\<rparr> ?ci = \<lparr>x = NaN, y = NaN\<rparr>"
    using t2 by fastforce
  have geo: "arc.r (poincare_geodesic \<lparr>x = Fin 100, y = Fin 100\<rparr> \<lparr>x = Fin 50, y = Fin 100\<rparr>
               (render_poindisk (Fin 200) (Fin 200))) = NaN"
    using t2 by (simp add: render_poindisk_square)
  show ?thesis using off fin dist cen geo by simp
qed

section \<open>Canvas to disk and back\<close>

text \<open>
  \<^verbatim>\<open>canvas_to_disk\<close> scales by the width and the height of the bounding box and
  \<^verbatim>\<open>disk_to_canvas\<close> scales by the radius around \<open>(cx, cy)\<close>. The two are inverse to
  each other when the bounding box is the square around the disk.
\<close>

lemma render_poindisk_wide:
  "cx (render_poindisk (Fin 200) (Fin 100)) = Fin 100"
  "cy (render_poindisk (Fin 200) (Fin 100)) = Fin 50"
  "r (render_poindisk (Fin 200) (Fin 100)) = Fin 50"
  "boundbox (render_poindisk (Fin 200) (Fin 100)) =
     \<lparr>left = Fin 0, right = Fin 200, top = Fin 0, bottom = Fin 100\<rparr>"
  by (simp_all add: render_poindisk_def Let_def)

text \<open>
  C2, as stated, fails. For the canvas of width 200 and height 100 the disk that
  \<^verbatim>\<open>render\<close> builds has radius \<open>50 = min 100 50\<close>, and the canvas point \<open>(0, 0)\<close> comes
  back as \<open>(50, 0)\<close>, which is further than \<open>10\<^sup>-\<^sup>9\<close> from it.
\<close>

theorem disk_to_canvas_canvas_to_disk_wide_canvas:
  "disk_to_canvas (canvas_to_disk \<lparr>x = Fin 0, y = Fin 0\<rparr> (render_poindisk (Fin 200) (Fin 100)))
       (render_poindisk (Fin 200) (Fin 100)) = \<lparr>x = Fin 50, y = Fin 0\<rparr>
   \<and> \<bar>x (disk_to_canvas (canvas_to_disk \<lparr>x = Fin 0, y = Fin 0\<rparr> (render_poindisk (Fin 200) (Fin 100)))
       (render_poindisk (Fin 200) (Fin 100))) - x \<lparr>x = Fin 0, y = Fin 0\<rparr>\<bar> > Fin (1 / 10 ^ 9)
   \<and> boundbox (render_poindisk (Fin 200) (Fin 100))
       = \<lparr>left = Fin 0, right = Fin 200, top = Fin 0, bottom = Fin 100\<rparr>
   \<and> r (render_poindisk (Fin 200) (Fin 100)) = Math_min (Fin 100) (Fin 50)
   \<and> r (render_poindisk (Fin 200) (Fin 100)) = Fin 50"
  by (simp add: disk_to_canvas_def canvas_to_disk_def render_poindisk_wide Let_def)

text \<open>
  C2, amended. When the bounding box of the disk is the square of side \<open>2 r\<close> around
  \<open>(cx, cy)\<close>, with \<open>r > 0\<close>, the round trip returns every finite canvas point, exactly
  in exact arithmetic.
\<close>

theorem disk_to_canvas_canvas_to_disk_square:
  assumes "x p = Fin u" "y p = Fin v"
    and "cx d = Fin s" "cy d = Fin t" "r d = Fin w" "0 < w"
    and "boundbox d = \<lparr>left = Fin (s - w), right = Fin (s + w), top = Fin (t - w), bottom = Fin (t + w)\<rparr>"
  shows "disk_to_canvas (canvas_to_disk p d) d = \<lparr>x = Fin u, y = Fin v\<rparr>"
  using assms by (simp add: disk_to_canvas_def canvas_to_disk_def Let_def field_simps)

theorem disk_to_canvas_canvas_to_disk_square_witness:
  "x \<lparr>x = Fin 30, y = Fin 170\<rparr> = Fin 30 \<and> y \<lparr>x = Fin 30, y = Fin 170\<rparr> = Fin 170
   \<and> cx (render_poindisk (Fin 200) (Fin 200)) = Fin 100
   \<and> cy (render_poindisk (Fin 200) (Fin 200)) = Fin 100
   \<and> r (render_poindisk (Fin 200) (Fin 200)) = Fin 100 \<and> (0 :: real) < 100
   \<and> boundbox (render_poindisk (Fin 200) (Fin 200)) =
        \<lparr>left = Fin (100 - 100), right = Fin (100 + 100), top = Fin (100 - 100), bottom = Fin (100 + 100)\<rparr>
   \<and> disk_to_canvas (canvas_to_disk \<lparr>x = Fin 30, y = Fin 170\<rparr> (render_poindisk (Fin 200) (Fin 200)))
        (render_poindisk (Fin 200) (Fin 200)) = \<lparr>x = Fin 30, y = Fin 170\<rparr>"
  using disk_to_canvas_canvas_to_disk_square[of "\<lparr>x = Fin 30, y = Fin 170\<rparr>" 30 170 "render_poindisk (Fin 200) (Fin 200)" 100 100 100]
  by (simp add: render_poindisk_square)

section \<open>The circle of a node\<close>

text \<open>
  \<^verbatim>\<open>poincare_circle\<close> passes the Euclidean norm of the centre to \<^verbatim>\<open>Math.atanh\<close> as it
  is. Inside the unit disk the result is finite. On the unit circle \<^verbatim>\<open>atanh\<close> returns
  \<^verbatim>\<open>Infinity\<close>, which \<^verbatim>\<open>tanh\<close> maps back to 1. Beyond it \<^verbatim>\<open>atanh\<close> returns \<open>NaN\<close>.
\<close>

lemma Math_atanh_unit: "0 \<le> n \<Longrightarrow> n < 1 \<Longrightarrow> Math_atanh (Fin n) = Fin (artanh n)"
  by simp

lemma poincare_circle_outside:
  assumes "x ce = Fin u" "y ce = Fin v" and "1 < sqrt (u * u + v * v)"
  shows "cx (poincare_circle ce h d) = NaN \<and> cy (poincare_circle ce h d) = NaN
         \<and> r (poincare_circle ce h d) = NaN"
proof -
  have "\<not> u * u + v * v < 0" by (simp add: not_less)
  then have "hyper_radius_from_euclidean (Math_sqrt (x ce * x ce + y ce * y ce)) = NaN"
    using assms by (simp add: hyper_radius_from_euclidean_def)
  then show ?thesis
    by (simp add: poincare_circle_def Let_def r_poincare_to_euclid_def disk_to_canvas_def)
qed

lemma poincare_circle_boundary:
  assumes "x ce = Fin u" "y ce = Fin v" and "sqrt (u * u + v * v) = 1"
    and "cx d = Fin s" "cy d = Fin t" "r d = Fin w"
  shows "is_finite (cx (poincare_circle ce (Fin h) d)) \<and> is_finite (cy (poincare_circle ce (Fin h) d))
         \<and> r (poincare_circle ce (Fin h) d) = Fin 0"
proof -
  have "\<not> u * u + v * v < 0" by (simp add: not_less)
  then have "hyper_radius_from_euclidean (Math_sqrt (x ce * x ce + y ce * y ce)) = PInf"
    using assms by (simp add: hyper_radius_from_euclidean_def inf_of_sign_def)
  then show ?thesis using assms
    by (simp add: poincare_circle_def Let_def r_poincare_to_euclid_def disk_to_canvas_def
        minus_number_def inf_of_sign_def)
qed

lemma poincare_circle_inside:
  assumes "x ce = Fin u" "y ce = Fin v" and "sqrt (u * u + v * v) < 1"
    and "cx d = Fin s" "cy d = Fin t" "r d = Fin w"
  shows "is_finite (cx (poincare_circle ce (Fin h) d)) \<and> is_finite (cy (poincare_circle ce (Fin h) d))
         \<and> is_finite (r (poincare_circle ce (Fin h) d))"
proof -
  have "\<not> u * u + v * v < 0" by (simp add: not_less)
  moreover have "Math_atanh (Fin (sqrt (u * u + v * v))) = Fin (artanh (sqrt (u * u + v * v)))"
    using assms(3) by (intro Math_atanh_unit) (simp_all add: not_less)
  ultimately have "hyper_radius_from_euclidean (Math_sqrt (x ce * x ce + y ce * y ce)) = Fin (2 * artanh (sqrt (u * u + v * v)))"
    using assms(1,2) by (simp add: hyper_radius_from_euclidean_def)
  then show ?thesis using assms
    by (simp add: poincare_circle_def Let_def r_poincare_to_euclid_def disk_to_canvas_def)
qed

text \<open>
  C6, as stated, fails: there is no clamping. For the centre \<open>(2, 0)\<close>, of norm 2, the
  fields \<^verbatim>\<open>cx\<close>, \<^verbatim>\<open>cy\<close> and \<^verbatim>\<open>r\<close> of the returned circle are \<open>NaN\<close>.
\<close>

theorem poincare_circle_beyond_boundary_is_NaN:
  "Math_sqrt (x \<lparr>x = Fin 2, y = Fin 0\<rparr> * x \<lparr>x = Fin 2, y = Fin 0\<rparr>
      + y \<lparr>x = Fin 2, y = Fin 0\<rparr> * y \<lparr>x = Fin 2, y = Fin 0\<rparr>) = Fin 2
   \<and> cx (poincare_circle \<lparr>x = Fin 2, y = Fin 0\<rparr> (Fin 0.05) (render_poindisk (Fin 200) (Fin 200))) = NaN
   \<and> cy (poincare_circle \<lparr>x = Fin 2, y = Fin 0\<rparr> (Fin 0.05) (render_poindisk (Fin 200) (Fin 200))) = NaN
   \<and> r (poincare_circle \<lparr>x = Fin 2, y = Fin 0\<rparr> (Fin 0.05) (render_poindisk (Fin 200) (Fin 200))) = NaN"
proof -
  have "1 < sqrt (2 * 2 + 0 * 0 :: real)" by simp
  from poincare_circle_outside[OF _ _ this, of "\<lparr>x = Fin 2, y = Fin 0\<rparr>"]
  show ?thesis by simp
qed

text \<open>
  C6, amended. For a finite centre, a finite hyperbolic radius and a disk with finite
  \<^verbatim>\<open>cx\<close>, \<^verbatim>\<open>cy\<close> and \<^verbatim>\<open>r\<close>: when the norm of the centre is at most 1 the fields
  \<^verbatim>\<open>cx\<close>, \<^verbatim>\<open>cy\<close> and \<^verbatim>\<open>r\<close> of the circle are finite; when it is exactly 1 the
  radius of the circle is 0; when it is greater than 1 the three fields are \<open>NaN\<close>.
\<close>

theorem poincare_circle_finite_iff_not_beyond:
  assumes "x ce = Fin u" "y ce = Fin v" "cx d = Fin s" "cy d = Fin t" "r d = Fin w"
  shows "(sqrt (u * u + v * v) \<le> 1 \<longrightarrow>
            is_finite (cx (poincare_circle ce (Fin h) d))
          \<and> is_finite (cy (poincare_circle ce (Fin h) d))
          \<and> is_finite (r (poincare_circle ce (Fin h) d)))
       \<and> (sqrt (u * u + v * v) = 1 \<longrightarrow> r (poincare_circle ce (Fin h) d) = Fin 0)
       \<and> (1 < sqrt (u * u + v * v) \<longrightarrow>
            cx (poincare_circle ce (Fin h) d) = NaN
          \<and> cy (poincare_circle ce (Fin h) d) = NaN
          \<and> r (poincare_circle ce (Fin h) d) = NaN)"
proof (intro conjI impI)
  assume "sqrt (u * u + v * v) = 1"
  from poincare_circle_boundary[OF assms(1,2) this assms(3-5)]
  show "r (poincare_circle ce (Fin h) d) = Fin 0" by simp
next
  assume le: "sqrt (u * u + v * v) \<le> 1"
  have "is_finite (cx (poincare_circle ce (Fin h) d))
          \<and> is_finite (cy (poincare_circle ce (Fin h) d))
          \<and> is_finite (r (poincare_circle ce (Fin h) d))"
  proof (cases "sqrt (u * u + v * v) = 1")
    case True
    from poincare_circle_boundary[OF assms(1,2) this assms(3-5), of h] show ?thesis by simp
  next
    case False
    then have "sqrt (u * u + v * v) < 1" using le by simp
    from poincare_circle_inside[OF assms(1,2) this assms(3-5)] show ?thesis .
  qed
  then show "is_finite (cx (poincare_circle ce (Fin h) d))"
    and "is_finite (cy (poincare_circle ce (Fin h) d))"
    and "is_finite (r (poincare_circle ce (Fin h) d))" by blast+
next
  assume "1 < sqrt (u * u + v * v)"
  from poincare_circle_outside[OF assms(1,2) this]
  show "cx (poincare_circle ce (Fin h) d) = NaN"
    and "cy (poincare_circle ce (Fin h) d) = NaN"
    and "r (poincare_circle ce (Fin h) d) = NaN" by blast+
qed

theorem poincare_circle_finite_iff_not_beyond_witness:
  "sqrt (1 * 1 + 0 * 0 :: real) \<le> 1 \<and> sqrt (1 * 1 + 0 * 0 :: real) = 1
   \<and> 1 < sqrt (2 * 2 + 0 * 0 :: real)
   \<and> is_finite (cx (poincare_circle \<lparr>x = Fin 1, y = Fin 0\<rparr> (Fin 0.05) (render_poindisk (Fin 200) (Fin 200))))
   \<and> is_finite (cy (poincare_circle \<lparr>x = Fin 1, y = Fin 0\<rparr> (Fin 0.05) (render_poindisk (Fin 200) (Fin 200))))
   \<and> r (poincare_circle \<lparr>x = Fin 1, y = Fin 0\<rparr> (Fin 0.05) (render_poindisk (Fin 200) (Fin 200))) = Fin 0
   \<and> r (poincare_circle \<lparr>x = Fin 2, y = Fin 0\<rparr> (Fin 0.05) (render_poindisk (Fin 200) (Fin 200))) = NaN"
proof -
  have a: "sqrt (1 * 1 + 0 * 0 :: real) = 1" and b: "1 < sqrt (2 * 2 + 0 * 0 :: real)" by simp_all
  note t1 = poincare_circle_finite_iff_not_beyond
              [of "\<lparr>x = Fin 1, y = Fin 0\<rparr>" 1 0 "render_poindisk (Fin 200) (Fin 200)" 100 100 100 "0.05"]
  note t2 = poincare_circle_finite_iff_not_beyond
              [of "\<lparr>x = Fin 2, y = Fin 0\<rparr>" 2 0 "render_poindisk (Fin 200) (Fin 200)" 100 100 100 "0.05"]
  have c: "is_finite (cx (poincare_circle \<lparr>x = Fin 1, y = Fin 0\<rparr> (Fin 0.05) (render_poindisk (Fin 200) (Fin 200))))"
    and d: "is_finite (cy (poincare_circle \<lparr>x = Fin 1, y = Fin 0\<rparr> (Fin 0.05) (render_poindisk (Fin 200) (Fin 200))))"
    and e: "r (poincare_circle \<lparr>x = Fin 1, y = Fin 0\<rparr> (Fin 0.05) (render_poindisk (Fin 200) (Fin 200))) = Fin 0"
    using t1 a by (simp_all add: render_poindisk_square)
  have f: "r (poincare_circle \<lparr>x = Fin 2, y = Fin 0\<rparr> (Fin 0.05) (render_poindisk (Fin 200) (Fin 200))) = NaN"
    using t2 b by (simp add: render_poindisk_square)
  show ?thesis using a b c d e f by simp
qed

section \<open>Projection of a node\<close>

lemma to_poincare_center:
  "projection.center (snd (to_poincare ePosition centerX centerY d inPlace)) =
     \<lparr>x = r d + r d * (to_poincare_poincareR ePosition centerX centerY
                          * Math_sin (to_poincare_theta ePosition centerX centerY)),
      y = r d + r d * (to_poincare_poincareR ePosition centerX centerY
                          * Math_cos (to_poincare_theta ePosition centerX centerY))\<rparr>"
  by (simp add: to_poincare_def to_poincare_theta_def to_poincare_poincareR_def Let_def)

lemma to_poincare_node_center:
  "node.center (fst (to_poincare ePosition centerX centerY d True)) =
     Some (projection.center (snd (to_poincare ePosition centerX centerY d True)))"
  by (simp add: to_poincare_def Let_def)

lemma to_poincare_node_unchanged:
  "fst (to_poincare ePosition centerX centerY d False) = ePosition"
  by (simp add: to_poincare_def Let_def)

lemma to_poincare_circles:
  "projection.circle (snd (to_poincare ePosition centerX centerY d inPlace)) =
     poincare_circle
       (canvas_to_disk (projection.center (snd (to_poincare ePosition centerX centerY d inPlace))) d)
       (Fin 0.05) d
   \<and> node.circle (fst (to_poincare ePosition centerX centerY d True)) =
     Some (poincare_circle
       (canvas_to_disk (projection.center (snd (to_poincare ePosition centerX centerY d True))) d)
       (Fin 0.2) d)"
  by (simp add: to_poincare_def Let_def)

lemma to_poincare_at_reference:
  "to_poincare_poincareR \<lparr>x = Fin 5, y = Fin 0, node.center = None, node.circle = None\<rparr>
     (Fin 5) (Fin 0) = Fin 0"
  "to_poincare_theta \<lparr>x = Fin 5, y = Fin 0, node.center = None, node.circle = None\<rparr>
     (Fin 5) (Fin 0) = Fin 0"
  by (simp_all add: to_poincare_poincareR_def to_poincare_theta_def Let_def atan2_real_def)

text \<open>
  Where the disk has \<open>cx = cy = r\<close>, as on a square canvas, the centre that
  \<^verbatim>\<open>to_poincare\<close> computes is the polar result around the centre of the disk.
\<close>

lemma to_poincare_center_square:
  assumes "cx d = r d" "cy d = r d"
  shows "projection.center (snd (to_poincare ePosition centerX centerY d inPlace)) =
     \<lparr>x = cx d + r d * (to_poincare_poincareR ePosition centerX centerY
                          * Math_sin (to_poincare_theta ePosition centerX centerY)),
      y = cy d + r d * (to_poincare_poincareR ePosition centerX centerY
                          * Math_cos (to_poincare_theta ePosition centerX centerY))\<rparr>"
  by (simp add: to_poincare_center assms)

text \<open>
  C4. The claim centres the projection at the centre \<open>(cx, cy)\<close> of the disk, as
  \<^verbatim>\<open>disk_to_canvas\<close> does; \<^verbatim>\<open>to_poincare\<close> adds \<^verbatim>\<open>poindisk.r\<close> in both coordinates
  instead. On the canvas of width 200 and height 100, \<^verbatim>\<open>render\<close> builds the disk with
  \<open>cx = 100\<close>, \<open>cy = 50\<close> and \<open>r = 50\<close>. The node at the reference centre has
  \<open>poincareR = 0\<close>, so the claim puts it at the centre \<open>(100, 50)\<close> of the disk; the code
  puts it at \<open>(50, 50)\<close>, a point of the boundary of the disk.
\<close>

theorem to_poincare_center_wide_canvas:
  "projection.center (snd (to_poincare
        \<lparr>x = Fin 5, y = Fin 0, node.center = None, node.circle = None\<rparr> (Fin 5) (Fin 0)
        (render_poindisk (Fin 200) (Fin 100)) True)) = \<lparr>x = Fin 50, y = Fin 50\<rparr>
   \<and> x (projection.center (snd (to_poincare
        \<lparr>x = Fin 5, y = Fin 0, node.center = None, node.circle = None\<rparr> (Fin 5) (Fin 0)
        (render_poindisk (Fin 200) (Fin 100)) True))) = Fin 50
   \<and> cx (render_poindisk (Fin 200) (Fin 100))
       + r (render_poindisk (Fin 200) (Fin 100))
         * (to_poincare_poincareR
              \<lparr>x = Fin 5, y = Fin 0, node.center = None, node.circle = None\<rparr> (Fin 5) (Fin 0)
            * Math_sin (to_poincare_theta
              \<lparr>x = Fin 5, y = Fin 0, node.center = None, node.circle = None\<rparr> (Fin 5) (Fin 0)))
       = Fin 100
   \<and> cy (render_poindisk (Fin 200) (Fin 100))
       + r (render_poindisk (Fin 200) (Fin 100))
         * (to_poincare_poincareR
              \<lparr>x = Fin 5, y = Fin 0, node.center = None, node.circle = None\<rparr> (Fin 5) (Fin 0)
            * Math_cos (to_poincare_theta
              \<lparr>x = Fin 5, y = Fin 0, node.center = None, node.circle = None\<rparr> (Fin 5) (Fin 0)))
       = Fin 50
   \<and> euclid_dist \<lparr>x = Fin 50, y = Fin 50\<rparr> \<lparr>x = Fin 100, y = Fin 50\<rparr>
       = r (render_poindisk (Fin 200) (Fin 100))"
  by (simp add: to_poincare_center to_poincare_at_reference render_poindisk_wide euclid_dist_Fin)

lemma poincare_circle_origin_r:
  assumes "r d = Fin w" and "\<bar>h\<bar> \<le> 1 / 2"
  shows "r (poincare_circle \<lparr>x = Fin 0, y = Fin 0\<rparr> (Fin h) d) = Fin (tanh (h / 2) * w)"
proof -
  have "Math_tanh (Fin (h / 2)) = Fin (tanh (h / 2))"
    using assms(2) by (intro Math_tanh_small) simp
  moreover have "Math_tanh (Fin (- h / 2)) = Fin (tanh (- h / 2))"
    using assms(2) by (intro Math_tanh_small) simp
  ultimately show ?thesis using assms(1)
    by (simp add: poincare_circle_def Let_def hyper_radius_from_euclidean_def
        r_poincare_to_euclid_def del: Math_tanh.simps)
qed

text \<open>
  C5, as stated, fails for the circle written into the node: it has hyperbolic radius
  \<open>0.2\<close>. On the canvas of width and height 200, for the node at the reference centre,
  its radius is \<open>100 \<cdot> tanh 0.1\<close>, and the circle of hyperbolic radius \<open>0.05\<close> at the same
  position has radius \<open>100 \<cdot> tanh 0.025\<close>.
\<close>

theorem to_poincare_in_place_circle_differs:
  "r (the (node.circle (fst (to_poincare
        \<lparr>x = Fin 5, y = Fin 0, node.center = None, node.circle = None\<rparr> (Fin 5) (Fin 0)
        (render_poindisk (Fin 200) (Fin 200)) True)))) = Fin (tanh (1 / 10) * 100)
   \<and> r (poincare_circle
          (canvas_to_disk (projection.center (snd (to_poincare
             \<lparr>x = Fin 5, y = Fin 0, node.center = None, node.circle = None\<rparr> (Fin 5) (Fin 0)
             (render_poindisk (Fin 200) (Fin 200)) True))) (render_poindisk (Fin 200) (Fin 200)))
          (Fin 0.05) (render_poindisk (Fin 200) (Fin 200))) = Fin (tanh (1 / 40) * 100)
   \<and> node.circle (fst (to_poincare
        \<lparr>x = Fin 5, y = Fin 0, node.center = None, node.circle = None\<rparr> (Fin 5) (Fin 0)
        (render_poindisk (Fin 200) (Fin 200)) True))
       \<noteq> Some (poincare_circle
          (canvas_to_disk (projection.center (snd (to_poincare
             \<lparr>x = Fin 5, y = Fin 0, node.center = None, node.circle = None\<rparr> (Fin 5) (Fin 0)
             (render_poindisk (Fin 200) (Fin 200)) True))) (render_poindisk (Fin 200) (Fin 200)))
          (Fin 0.05) (render_poindisk (Fin 200) (Fin 200)))"
proof -
  let ?d = "render_poindisk (Fin 200) (Fin 200)"
  let ?e = "\<lparr>x = Fin 5, y = Fin 0, node.center = None, node.circle = None\<rparr>"
  have ce: "projection.center (snd (to_poincare ?e (Fin 5) (Fin 0) ?d True)) = \<lparr>x = Fin 100, y = Fin 100\<rparr>"
    by (simp add: to_poincare_center to_poincare_at_reference render_poindisk_square)
  have cd: "canvas_to_disk \<lparr>x = Fin 100, y = Fin 100\<rparr> ?d = \<lparr>x = Fin 0, y = Fin 0\<rparr>"
    by (simp add: canvas_to_disk_def render_poindisk_square Let_def)
  have big: "r (poincare_circle \<lparr>x = Fin 0, y = Fin 0\<rparr> (Fin 0.2) ?d) = Fin (tanh (1 / 10) * 100)"
    using poincare_circle_origin_r[of ?d 100 "0.2"] by (simp add: render_poindisk_square)
  have small: "r (poincare_circle \<lparr>x = Fin 0, y = Fin 0\<rparr> (Fin 0.05) ?d) = Fin (tanh (1 / 40) * 100)"
    using poincare_circle_origin_r[of ?d 100 "0.05"] by (simp add: render_poindisk_square)
  have nc: "node.circle (fst (to_poincare ?e (Fin 5) (Fin 0) ?d True))
            = Some (poincare_circle \<lparr>x = Fin 0, y = Fin 0\<rparr> (Fin 0.2) ?d)"
    using to_poincare_circles[of ?e "Fin 5" "Fin 0" ?d True] by (simp add: ce cd)
  have ne: "poincare_circle \<lparr>x = Fin 0, y = Fin 0\<rparr> (Fin 0.2) ?d
            \<noteq> poincare_circle \<lparr>x = Fin 0, y = Fin 0\<rparr> (Fin 0.05) ?d"
  proof
    assume "poincare_circle \<lparr>x = Fin 0, y = Fin 0\<rparr> (Fin 0.2) ?d
            = poincare_circle \<lparr>x = Fin 0, y = Fin 0\<rparr> (Fin 0.05) ?d"
    then have "r (poincare_circle \<lparr>x = Fin 0, y = Fin 0\<rparr> (Fin 0.2) ?d)
            = r (poincare_circle \<lparr>x = Fin 0, y = Fin 0\<rparr> (Fin 0.05) ?d)" by simp
    then show False unfolding big small by simp
  qed
  show ?thesis unfolding nc ce cd using big small ne by simp
qed

text \<open>
  C5, amended. The circle in the returned object is the \<^verbatim>\<open>poincare_circle\<close> of hyperbolic
  radius \<open>0.05\<close> at the disk position of the projected centre; the circle written into
  the node when \<^verbatim>\<open>inPlace\<close> holds is the \<^verbatim>\<open>poincare_circle\<close> of hyperbolic radius
  \<open>0.2\<close> at the same position.
\<close>

theorem to_poincare_circle_radii:
  "projection.circle (snd (to_poincare ePosition centerX centerY d inPlace)) =
     poincare_circle
       (canvas_to_disk (projection.center (snd (to_poincare ePosition centerX centerY d inPlace))) d)
       (Fin 0.05) d
   \<and> node.circle (fst (to_poincare ePosition centerX centerY d True)) =
     Some (poincare_circle
       (canvas_to_disk (projection.center (snd (to_poincare ePosition centerX centerY d True))) d)
       (Fin 0.2) d)"
  by (rule to_poincare_circles)






section \<open>Geodesic of two points off a diameter\<close>

text \<open>
  Write \<open>O = (cx, cy)\<close> for the centre of the disk and \<open>w\<close> for its radius. For a point
  \<open>P\<close> with \<open>0 < |P - O|\<^sup>2 \<noteq> w\<^sup>2\<close>, the line that \<^verbatim>\<open>poincare_geodesic\<close> builds from
  \<open>P\<close> and its inverse is a non-zero multiple of the bisector
  \<open>(P - O) \<bullet> (X - O) = (|P - O|\<^sup>2 + w\<^sup>2) / 2\<close>, whether or not \<^verbatim>\<open>euclid_line\<close> divides by
  its coefficient \<open>b\<close>. When \<open>P - O\<close> and \<open>Q - O\<close> are not parallel, the two bisectors meet
  in one point \<open>C\<close>, and \<open>|P - C|\<^sup>2 = |C - O|\<^sup>2 - w\<^sup>2 = |Q - C|\<^sup>2\<close>.
\<close>

lemma bisector_line:
  fixes a1 a2 s t w :: real
  assumes d: "cx d = Fin s" "cy d = Fin t" "r d = Fin w"
    and S0: "(a1 - s)\<^sup>2 + (a2 - t)\<^sup>2 \<noteq> 0"
    and Sw: "(a1 - s)\<^sup>2 + (a2 - t)\<^sup>2 \<noteq> w\<^sup>2"
  shows "\<exists>\<tau>. \<tau> \<noteq> 0 \<and>
           get_perpendicular_line
             (euclid_line \<lparr>x = Fin a1, y = Fin a2\<rparr> (circle_inversion \<lparr>x = Fin a1, y = Fin a2\<rparr> d))
             (find_midpoint \<lparr>x = Fin a1, y = Fin a2\<rparr> (circle_inversion \<lparr>x = Fin a1, y = Fin a2\<rparr> d))
           = \<lparr>a = Fin (\<tau> * (a1 - s)), b = Fin (\<tau> * (a2 - t)),
              c = Fin (- (\<tau> * ((a1 - s) * s + (a2 - t) * t
                               + ((a1 - s)\<^sup>2 + (a2 - t)\<^sup>2 + w\<^sup>2) / 2)))\<rparr>"
proof -
  define u1 where "u1 = a1 - s"
  define u2 where "u2 = a2 - t"
  define S where "S = u1\<^sup>2 + u2\<^sup>2"
  define k where "k = w * w / S"
  have S0': "S \<noteq> 0" using S0 by (simp add: S_def u1_def u2_def)
  have k1: "k \<noteq> 1" using Sw S0' by (simp add: k_def S_def u1_def u2_def power2_eq_square)
  have kS: "k * S = w\<^sup>2" using S0' by (simp add: k_def power2_eq_square)
  have pp: "circle_inversion \<lparr>x = Fin a1, y = Fin a2\<rparr> d = \<lparr>x = Fin (k * u1 + s), y = Fin (k * u2 + t)\<rparr>"
    unfolding k_def S_def u1_def u2_def
    by (rule circle_inversion_Fin[OF _ _ d S0]) simp_all
  define M1 where "M1 = (a1 + (k * u1 + s)) / 2"
  define M2 where "M2 = (a2 + (k * u2 + t)) / 2"
  have mid: "find_midpoint \<lparr>x = Fin a1, y = Fin a2\<rparr> \<lparr>x = Fin (k * u1 + s), y = Fin (k * u2 + t)\<rparr>
             = \<lparr>x = Fin M1, y = Fin M2\<rparr>"
    by (simp add: find_midpoint_def M1_def M2_def)
  define a0 where "a0 = a2 - (k * u2 + t)"
  define b0 where "b0 = (k * u1 + s) - a1"
  define c0 where "c0 = a1 * (k * u2 + t) - (k * u1 + s) * a2"
  have a0: "a0 = (1 - k) * u2" by (simp add: a0_def u2_def algebra_simps)
  have b0: "b0 = (k - 1) * u1" by (simp add: b0_def u1_def algebra_simps)
  have el: "euclid_line \<lparr>x = Fin a1, y = Fin a2\<rparr> \<lparr>x = Fin (k * u1 + s), y = Fin (k * u2 + t)\<rparr>
            = (if 0.001 < \<bar>b0\<bar> then \<lparr>a = Fin (a0 / b0), b = Fin 1, c = Fin (c0 / b0)\<rparr>
               else \<lparr>a = Fin a0, b = Fin b0, c = Fin c0\<rparr>)"
    by (auto simp add: euclid_line_def Let_def a0_def b0_def c0_def)
  have uM: "u1 * M1 + u2 * M2 = u1 * s + u2 * t + (S + w\<^sup>2) / 2"
  proof -
    have "u1 * M1 + u2 * M2 = u1 * s + u2 * t + (S + k * S) / 2"
      by (simp add: M1_def M2_def S_def u1_def u2_def power2_eq_square field_simps)
    then show ?thesis by (simp add: kS)
  qed
  define K where "K = u1 * s + u2 * t + (S + w\<^sup>2) / 2"
  have uMK: "u1 * M1 + u2 * M2 = K" using uM by (simp add: K_def)
  let ?L = "get_perpendicular_line
             (euclid_line \<lparr>x = Fin a1, y = Fin a2\<rparr> (circle_inversion \<lparr>x = Fin a1, y = Fin a2\<rparr> d))
             (find_midpoint \<lparr>x = Fin a1, y = Fin a2\<rparr> (circle_inversion \<lparr>x = Fin a1, y = Fin a2\<rparr> d))"
  have "\<exists>\<tau>. \<tau> \<noteq> 0 \<and> ?L = \<lparr>a = Fin (\<tau> * u1), b = Fin (\<tau> * u2), c = Fin (- (\<tau> * K))\<rparr>"
  proof (cases "0.001 < \<bar>b0\<bar>")
    case True
    then have b0n: "b0 \<noteq> 0" by auto
    then have u1n: "u1 \<noteq> 0" using b0 by auto
    have km: "k - 1 \<noteq> 0" using k1 by simp
    have r1: "a0 / b0 = - (u2 / u1)"
      using u1n km unfolding a0 b0 by (simp add: field_simps)
    have perp: "?L = \<lparr>a = Fin 1, b = Fin (u2 / u1), c = Fin (- M1 - M2 * (u2 / u1))\<rparr>"
      unfolding pp mid using True by (simp add: el get_perpendicular_line_def r1)
    have e_a: "1 = 1 / u1 * u1" using u1n by simp
    have e_b: "u2 / u1 = 1 / u1 * u2" by simp
    have "- M1 - M2 * (u2 / u1) = - (1 / u1 * (u1 * M1 + u2 * M2))"
      using u1n by (simp add: field_simps)
    then have e_c: "- M1 - M2 * (u2 / u1) = - (1 / u1 * K)" by (simp only: uMK)
    have "?L = \<lparr>a = Fin (1 / u1 * u1), b = Fin (1 / u1 * u2), c = Fin (- (1 / u1 * K))\<rparr>"
      unfolding perp using e_a e_b e_c by simp
    moreover have "1 / u1 \<noteq> 0" using u1n by simp
    ultimately show ?thesis by blast
  next
    case False
    have km: "k - 1 \<noteq> 0" using k1 by simp
    have perp: "?L = \<lparr>a = Fin b0, b = Fin (- a0), c = Fin (- M1 * b0 + M2 * a0)\<rparr>"
      unfolding pp mid using False by (simp add: el get_perpendicular_line_def)
    have e_b: "- a0 = (k - 1) * u2" unfolding a0 by (simp add: algebra_simps)
    have "- M1 * b0 + M2 * a0 = - ((k - 1) * (u1 * M1 + u2 * M2))"
      unfolding a0 b0 by (simp add: algebra_simps)
    then have e_c: "- M1 * b0 + M2 * a0 = - ((k - 1) * K)" by (simp only: uMK)
    have A: "Fin b0 = Fin ((k - 1) * u1)" using b0 by simp
    have B: "Fin (- a0) = Fin ((k - 1) * u2)" using e_b by simp
    have C: "Fin (- M1 * b0 + M2 * a0) = Fin (- ((k - 1) * K))" using e_c by simp
    have "?L = \<lparr>a = Fin ((k - 1) * u1), b = Fin ((k - 1) * u2), c = Fin (- ((k - 1) * K))\<rparr>"
      unfolding perp by (simp only: A B C)
    then show ?thesis using km by blast
  qed
  then show ?thesis unfolding K_def S_def u1_def u2_def .
qed

lemma scaled_line_eq:
  fixes \<tau> K :: real
  assumes "\<tau> \<noteq> 0"
    and "\<tau> * u1 * X + \<tau> * u2 * Y + - (\<tau> * (u1 * s + u2 * t + K)) = 0"
  shows "u1 * (X - s) + u2 * (Y - t) = K"
proof -
  have "\<tau> * (u1 * (X - s) + u2 * (Y - t) - K)
        = \<tau> * u1 * X + \<tau> * u2 * Y + - (\<tau> * (u1 * s + u2 * t + K))"
    by (simp add: algebra_simps)
  then have "\<tau> * (u1 * (X - s) + u2 * (Y - t) - K) = 0" using assms(2) by simp
  then show ?thesis using assms(1) by simp
qed

lemma poincare_geodesic_center:
  fixes P1 P2 Q1 Q2 l tp s t w :: real
  assumes p: "x p = Fin P1" "y p = Fin P2" and q: "x q = Fin Q1" "y q = Fin Q2"
    and bb: "left (boundbox d) = Fin l" "top (boundbox d) = Fin tp"
    and d: "cx d = Fin s" "cy d = Fin t" "r d = Fin w"
    and pin: "(P1 - l - s)\<^sup>2 + (P2 - tp - t)\<^sup>2 < w\<^sup>2"
    and qin: "(Q1 - l - s)\<^sup>2 + (Q2 - tp - t)\<^sup>2 < w\<^sup>2"
    and nc: "(P1 - l - s) * (Q2 - tp - t) \<noteq> (P2 - tp - t) * (Q1 - l - s)"
  shows "\<exists>X Y. poincare_geodesic p q d =
            \<lparr>p1 = \<lparr>x = Fin (P1 - l), y = Fin (P2 - tp)\<rparr>,
             p2 = \<lparr>x = Fin (Q1 - l), y = Fin (Q2 - tp)\<rparr>,
             arc.c = \<lparr>x = Fin X, y = Fin Y\<rparr>,
             startAngle = Fin (atan2_real (Q2 - tp - Y) (Q1 - l - X)),
             endAngle = Fin (atan2_real (P2 - tp - Y) (P1 - l - X)),
             arc.r = Fin (sqrt ((P1 - l - X)\<^sup>2 + (P2 - tp - Y)\<^sup>2))\<rparr>
          \<and> (P1 - l - s) * (X - s) + (P2 - tp - t) * (Y - t)
              = ((P1 - l - s)\<^sup>2 + (P2 - tp - t)\<^sup>2 + w\<^sup>2) / 2
          \<and> (Q1 - l - s) * (X - s) + (Q2 - tp - t) * (Y - t)
              = ((Q1 - l - s)\<^sup>2 + (Q2 - tp - t)\<^sup>2 + w\<^sup>2) / 2"
proof -
  define u1 where "u1 = P1 - l - s"
  define u2 where "u2 = P2 - tp - t"
  define v1 where "v1 = Q1 - l - s"
  define v2 where "v2 = Q2 - tp - t"
  have un: "u1\<^sup>2 + u2\<^sup>2 \<noteq> 0"
  proof
    assume "u1\<^sup>2 + u2\<^sup>2 = 0"
    then have "u1 = 0 \<and> u2 = 0" by (simp add: sum_power2_eq_zero_iff)
    then show False using nc by (simp add: u1_def u2_def)
  qed
  have vn: "v1\<^sup>2 + v2\<^sup>2 \<noteq> 0"
  proof
    assume "v1\<^sup>2 + v2\<^sup>2 = 0"
    then have "v1 = 0 \<and> v2 = 0" by (simp add: sum_power2_eq_zero_iff)
    then show False using nc by (simp add: v1_def v2_def)
  qed
  have uw: "u1\<^sup>2 + u2\<^sup>2 \<noteq> w\<^sup>2" using pin by (simp add: u1_def u2_def)
  have vw: "v1\<^sup>2 + v2\<^sup>2 \<noteq> w\<^sup>2" using qin by (simp add: v1_def v2_def)
  let ?p = "\<lparr>x = Fin (P1 - l), y = Fin (P2 - tp)\<rparr>"
  let ?q = "\<lparr>x = Fin (Q1 - l), y = Fin (Q2 - tp)\<rparr>"
  obtain \<tau> where \<tau>: "\<tau> \<noteq> 0"
    and m: "get_perpendicular_line (euclid_line ?p (circle_inversion ?p d))
              (find_midpoint ?p (circle_inversion ?p d))
            = \<lparr>a = Fin (\<tau> * u1), b = Fin (\<tau> * u2),
               c = Fin (- (\<tau> * (u1 * s + u2 * t + (u1\<^sup>2 + u2\<^sup>2 + w\<^sup>2) / 2)))\<rparr>"
    using bisector_line[OF d, of "P1 - l" "P2 - tp"] un uw
    unfolding u1_def u2_def by blast
  obtain \<sigma> where \<sigma>: "\<sigma> \<noteq> 0"
    and n: "get_perpendicular_line (euclid_line ?q (circle_inversion ?q d))
              (find_midpoint ?q (circle_inversion ?q d))
            = \<lparr>a = Fin (\<sigma> * v1), b = Fin (\<sigma> * v2),
               c = Fin (- (\<sigma> * (v1 * s + v2 * t + (v1\<^sup>2 + v2\<^sup>2 + w\<^sup>2) / 2)))\<rparr>"
    using bisector_line[OF d, of "Q1 - l" "Q2 - tp"] vn vw
    unfolding v1_def v2_def by blast
  have det: "(\<tau> * u2) * (\<sigma> * v1) - (\<tau> * u1) * (\<sigma> * v2) \<noteq> 0"
  proof -
    have "(\<tau> * u2) * (\<sigma> * v1) - (\<tau> * u1) * (\<sigma> * v2) = \<tau> * \<sigma> * (u2 * v1 - u1 * v2)"
      by (simp add: algebra_simps)
    moreover have "u2 * v1 - u1 * v2 \<noteq> 0" using nc by (simp add: u1_def u2_def v1_def v2_def)
    ultimately show ?thesis using \<tau> \<sigma> by simp
  qed
  from find_intersection_solves[OF det]
  obtain X Y where C: "find_intersection
        \<lparr>a = Fin (\<tau> * u1), b = Fin (\<tau> * u2),
               c = Fin (- (\<tau> * (u1 * s + u2 * t + (u1\<^sup>2 + u2\<^sup>2 + w\<^sup>2) / 2)))\<rparr>
        \<lparr>a = Fin (\<sigma> * v1), b = Fin (\<sigma> * v2),
               c = Fin (- (\<sigma> * (v1 * s + v2 * t + (v1\<^sup>2 + v2\<^sup>2 + w\<^sup>2) / 2)))\<rparr>
        = \<lparr>x = Fin X, y = Fin Y\<rparr>"
    and e1: "\<tau> * u1 * X + \<tau> * u2 * Y + - (\<tau> * (u1 * s + u2 * t + (u1\<^sup>2 + u2\<^sup>2 + w\<^sup>2) / 2)) = 0"
    and e2: "\<sigma> * v1 * X + \<sigma> * v2 * Y + - (\<sigma> * (v1 * s + v2 * t + (v1\<^sup>2 + v2\<^sup>2 + w\<^sup>2) / 2)) = 0"
    by blast
  have f1: "u1 * (X - s) + u2 * (Y - t) = (u1\<^sup>2 + u2\<^sup>2 + w\<^sup>2) / 2"
    by (rule scaled_line_eq[OF \<tau> e1])
  have f2: "v1 * (X - s) + v2 * (Y - t) = (v1\<^sup>2 + v2\<^sup>2 + w\<^sup>2) / 2"
    by (rule scaled_line_eq[OF \<sigma> e2])
  have g: "poincare_geodesic p q d =
            \<lparr>p1 = ?p, p2 = ?q, arc.c = \<lparr>x = Fin X, y = Fin Y\<rparr>,
             startAngle = Fin (atan2_real (Q2 - tp - Y) (Q1 - l - X)),
             endAngle = Fin (atan2_real (P2 - tp - Y) (P1 - l - X)),
             arc.r = Fin (sqrt ((P1 - l - X)\<^sup>2 + (P2 - tp - Y)\<^sup>2))\<rparr>"
    by (simp add: poincare_geodesic_def Let_def p q bb m n C euclid_dist_Fin)
  show ?thesis using g f1 f2 unfolding u1_def u2_def v1_def v2_def by blast
qed


lemma linear_system_unique:
  fixes u1 u2 v1 v2 X Y X' Y' :: real
  assumes D: "u1 * v2 \<noteq> u2 * v1"
    and e1: "u1 * X + u2 * Y = u1 * X' + u2 * Y'"
    and e2: "v1 * X + v2 * Y = v1 * X' + v2 * Y'"
  shows "X = X' \<and> Y = Y'"
proof -
  have D': "u1 * v2 - u2 * v1 \<noteq> 0" using D by simp
  have "(u1 * v2 - u2 * v1) * (X - X')
        = v2 * (u1 * X + u2 * Y - (u1 * X' + u2 * Y')) - u2 * (v1 * X + v2 * Y - (v1 * X' + v2 * Y'))"
    by (simp add: algebra_simps)
  also have "\<dots> = 0" by (simp add: e1 e2)
  finally have X: "X = X'" using D' by simp
  have "(u1 * v2 - u2 * v1) * (Y - Y')
        = u1 * (v1 * X + v2 * Y - (v1 * X' + v2 * Y')) - v1 * (u1 * X + u2 * Y - (u1 * X' + u2 * Y'))"
    by (simp add: algebra_simps)
  also have "\<dots> = 0" by (simp add: e1 e2)
  finally have "Y = Y'" using D' by simp
  then show ?thesis using X by simp
qed

text \<open>
  When \<open>P - O\<close> and \<open>Q - O\<close> are parallel (the two points and the centre are on one
  line), the two bisectors are parallel, and neither coordinate of the centre that
  \<^verbatim>\<open>poincare_geodesic\<close> returns is finite, for every such pair of points inside the disk.
\<close>

lemma poincare_geodesic_collinear:
  fixes P1 P2 Q1 Q2 l tp s t w :: real
  assumes p: "x p = Fin P1" "y p = Fin P2" and q: "x q = Fin Q1" "y q = Fin Q2"
    and bb: "left (boundbox d) = Fin l" "top (boundbox d) = Fin tp"
    and d: "cx d = Fin s" "cy d = Fin t" "r d = Fin w"
    and p0: "(P1 - l - s)\<^sup>2 + (P2 - tp - t)\<^sup>2 \<noteq> 0"
    and pin: "(P1 - l - s)\<^sup>2 + (P2 - tp - t)\<^sup>2 < w\<^sup>2"
    and q0: "(Q1 - l - s)\<^sup>2 + (Q2 - tp - t)\<^sup>2 \<noteq> 0"
    and qin: "(Q1 - l - s)\<^sup>2 + (Q2 - tp - t)\<^sup>2 < w\<^sup>2"
    and col: "(P1 - l - s) * (Q2 - tp - t) = (P2 - tp - t) * (Q1 - l - s)"
  shows "\<not> is_finite (x (arc.c (poincare_geodesic p q d)))
       \<and> \<not> is_finite (y (arc.c (poincare_geodesic p q d)))"
proof -
  define u1 where "u1 = P1 - l - s"
  define u2 where "u2 = P2 - tp - t"
  define v1 where "v1 = Q1 - l - s"
  define v2 where "v2 = Q2 - tp - t"
  let ?p = "\<lparr>x = Fin (P1 - l), y = Fin (P2 - tp)\<rparr>"
  let ?q = "\<lparr>x = Fin (Q1 - l), y = Fin (Q2 - tp)\<rparr>"
  have uw: "(P1 - l - s)\<^sup>2 + (P2 - tp - t)\<^sup>2 \<noteq> w\<^sup>2" using pin by simp
  have vw: "(Q1 - l - s)\<^sup>2 + (Q2 - tp - t)\<^sup>2 \<noteq> w\<^sup>2" using qin by simp
  obtain \<tau> K where
    m: "get_perpendicular_line (euclid_line ?p (circle_inversion ?p d))
              (find_midpoint ?p (circle_inversion ?p d))
            = \<lparr>a = Fin (\<tau> * u1), b = Fin (\<tau> * u2), c = Fin K\<rparr>"
    using bisector_line[OF d, of "P1 - l" "P2 - tp"] p0 uw
    unfolding u1_def u2_def by blast
  obtain \<sigma> L where
    n: "get_perpendicular_line (euclid_line ?q (circle_inversion ?q d))
              (find_midpoint ?q (circle_inversion ?q d))
            = \<lparr>a = Fin (\<sigma> * v1), b = Fin (\<sigma> * v2), c = Fin L\<rparr>"
    using bisector_line[OF d, of "Q1 - l" "Q2 - tp"] q0 vw
    unfolding v1_def v2_def by blast
  have "(\<tau> * u2) * (\<sigma> * v1) - (\<tau> * u1) * (\<sigma> * v2) = \<tau> * \<sigma> * (u2 * v1 - u1 * v2)"
    by (simp add: algebra_simps)
  moreover have "u2 * v1 - u1 * v2 = 0" using col by (simp add: u1_def u2_def v1_def v2_def)
  ultimately have det: "(\<tau> * u2) * (\<sigma> * v1) - (\<tau> * u1) * (\<sigma> * v2) = 0" by simp
  have C: "arc.c (poincare_geodesic p q d)
           = find_intersection \<lparr>a = Fin (\<tau> * u1), b = Fin (\<tau> * u2), c = Fin K\<rparr>
               \<lparr>a = Fin (\<sigma> * v1), b = Fin (\<sigma> * v2), c = Fin L\<rparr>"
    by (simp add: poincare_geodesic_def Let_def p q bb m n)
  show ?thesis unfolding C by (rule find_intersection_parallel[OF det])
qed





text \<open>
  The centre of the arc does not depend on the order of the two points: the arc from
  \<open>q\<close> to \<open>p\<close> has the centre of the arc from \<open>p\<close> to \<open>q\<close>. The radius is computed from the
  first point alone, as its distance from the centre.
\<close>

lemma poincare_geodesic_center_symmetric:
  fixes P1 P2 Q1 Q2 l tp s t w :: real
  assumes p: "x p = Fin P1" "y p = Fin P2" and q: "x q = Fin Q1" "y q = Fin Q2"
    and bb: "left (boundbox d) = Fin l" "top (boundbox d) = Fin tp"
    and d: "cx d = Fin s" "cy d = Fin t" "r d = Fin w"
    and pin: "(P1 - l - s)\<^sup>2 + (P2 - tp - t)\<^sup>2 < w\<^sup>2"
    and qin: "(Q1 - l - s)\<^sup>2 + (Q2 - tp - t)\<^sup>2 < w\<^sup>2"
    and nc: "(P1 - l - s) * (Q2 - tp - t) \<noteq> (P2 - tp - t) * (Q1 - l - s)"
  shows "arc.c (poincare_geodesic q p d) = arc.c (poincare_geodesic p q d)
       \<and> arc.r (poincare_geodesic p q d) = euclid_dist (p1 (poincare_geodesic p q d))
                                              (arc.c (poincare_geodesic p q d))
       \<and> arc.r (poincare_geodesic q p d) = euclid_dist (p2 (poincare_geodesic p q d))
                                              (arc.c (poincare_geodesic p q d))"
proof -
  from poincare_geodesic_center[OF assms]
  obtain X Y where g: "poincare_geodesic p q d =
            \<lparr>p1 = \<lparr>x = Fin (P1 - l), y = Fin (P2 - tp)\<rparr>,
             p2 = \<lparr>x = Fin (Q1 - l), y = Fin (Q2 - tp)\<rparr>,
             arc.c = \<lparr>x = Fin X, y = Fin Y\<rparr>,
             startAngle = Fin (atan2_real (Q2 - tp - Y) (Q1 - l - X)),
             endAngle = Fin (atan2_real (P2 - tp - Y) (P1 - l - X)),
             arc.r = Fin (sqrt ((P1 - l - X)\<^sup>2 + (P2 - tp - Y)\<^sup>2))\<rparr>"
    and e1: "(P1 - l - s) * (X - s) + (P2 - tp - t) * (Y - t)
              = ((P1 - l - s)\<^sup>2 + (P2 - tp - t)\<^sup>2 + w\<^sup>2) / 2"
    and e2: "(Q1 - l - s) * (X - s) + (Q2 - tp - t) * (Y - t)
              = ((Q1 - l - s)\<^sup>2 + (Q2 - tp - t)\<^sup>2 + w\<^sup>2) / 2"
    by blast
  have nc': "(Q1 - l - s) * (P2 - tp - t) \<noteq> (Q2 - tp - t) * (P1 - l - s)"
    using nc by (simp add: mult.commute)
  from poincare_geodesic_center[OF q p bb d qin pin nc']
  obtain X' Y' where g': "poincare_geodesic q p d =
            \<lparr>p1 = \<lparr>x = Fin (Q1 - l), y = Fin (Q2 - tp)\<rparr>,
             p2 = \<lparr>x = Fin (P1 - l), y = Fin (P2 - tp)\<rparr>,
             arc.c = \<lparr>x = Fin X', y = Fin Y'\<rparr>,
             startAngle = Fin (atan2_real (P2 - tp - Y') (P1 - l - X')),
             endAngle = Fin (atan2_real (Q2 - tp - Y') (Q1 - l - X')),
             arc.r = Fin (sqrt ((Q1 - l - X')\<^sup>2 + (Q2 - tp - Y')\<^sup>2))\<rparr>"
    and e2': "(Q1 - l - s) * (X' - s) + (Q2 - tp - t) * (Y' - t)
              = ((Q1 - l - s)\<^sup>2 + (Q2 - tp - t)\<^sup>2 + w\<^sup>2) / 2"
    and e1': "(P1 - l - s) * (X' - s) + (P2 - tp - t) * (Y' - t)
              = ((P1 - l - s)\<^sup>2 + (P2 - tp - t)\<^sup>2 + w\<^sup>2) / 2"
    by blast
  have "X' - s = X - s \<and> Y' - t = Y - t"
    by (rule linear_system_unique[OF nc]) (simp_all only: e1 e1' e2 e2')
  then have XY: "X' = X" "Y' = Y" by simp_all
  show ?thesis unfolding g g' XY by (simp add: euclid_dist_Fin)
qed

end
